theory Spec2Isabelle
  imports Main "HOL-Library.Multiset" "HOL-Library.AList"
begin

section \<open>Strings as Python sees them\<close>

text \<open>
  The source is \<^verbatim>\<open>src/OriginBookImportCSV3.py\<close>. A Python \<^verbatim>\<open>str\<close> is modelled as a
  \<^typ>\<open>string\<close>; each \<^typ>\<open>char\<close> stands for one code point below 256. The input of
  \<^verbatim>\<open>read_data_file\<close> is the list that \<^verbatim>\<open>f.readlines()\<close> returned (each line still
  carrying its line terminator); opening and decoding the file is outside the model.
\<close>

definition whitespace :: "char list" where
  \<comment> \<open>the code points below 256 for which \<^verbatim>\<open>str.isspace\<close> holds\<close>
  "whitespace =
     [CHR 0x09, CHR 0x0A, CHR 0x0B, CHR 0x0C, CHR 0x0D,
      CHR 0x1C, CHR 0x1D, CHR 0x1E, CHR 0x1F, CHR 0x20, CHR 0x85, CHR 0xA0]"

definition is_space :: "char \<Rightarrow> bool" where
  "is_space c = (c \<in> set whitespace)"

definition strip :: "string \<Rightarrow> string" where
  \<comment> \<open>\<^verbatim>\<open>s.strip()\<close>\<close>
  "strip s = rev (dropWhile is_space (rev (dropWhile is_space s)))"

primrec startswith :: "string \<Rightarrow> string \<Rightarrow> bool" where
  \<comment> \<open>\<^verbatim>\<open>s.startswith(p)\<close>, recursion on the prefix\<close>
  "startswith s [] = True"
| "startswith s (p # ps) = (case s of [] \<Rightarrow> False | c # cs \<Rightarrow> c = p \<and> startswith cs ps)"

primrec contains :: "string \<Rightarrow> string \<Rightarrow> bool" where
  \<comment> \<open>\<^verbatim>\<open>p in s\<close> for strings: \<open>p\<close> occurs as a contiguous piece of \<open>s\<close>\<close>
  "contains [] p = (p = [])"
| "contains (c # cs) p = (startswith (c # cs) p \<or> contains cs p)"

primrec split_acc :: "char \<Rightarrow> string \<Rightarrow> string \<Rightarrow> string list" where
  \<comment> \<open>the field being read is kept reversed in the accumulator\<close>
  "split_acc d acc [] = [rev acc]"
| "split_acc d acc (c # cs) =
     (if c = d then rev acc # split_acc d [] cs else split_acc d (c # acc) cs)"

definition split :: "string \<Rightarrow> char \<Rightarrow> string list" where
  \<comment> \<open>\<^verbatim>\<open>s.split(d)\<close> for a one-character separator: one field more than separators\<close>
  "split s d = split_acc d [] s"

section \<open>The delimiter detector\<close>

definition possible_delimiters :: "char list" where
  "possible_delimiters = [CHR '','', CHR 0x09, CHR '';'', CHR ''|'']"

definition delimiter_counts :: "string \<Rightarrow> (char \<times> nat) list" where
  \<comment> \<open>the dict of the source, as its items in insertion order: only positive counts are stored\<close>
  "delimiter_counts line =
     filter (\<lambda>(delim, count). count > 0)
       (map (\<lambda>delim. (delim, count_list line delim)) possible_delimiters)"

primrec max_item :: "char \<times> nat \<Rightarrow> (char \<times> nat) list \<Rightarrow> char \<times> nat" where
  \<comment> \<open>\<^verbatim>\<open>max(items, key=lambda x: x[1])\<close>: the running best is replaced only by a strictly
      larger key, so the first maximal item wins\<close>
  "max_item best [] = best"
| "max_item best (x # xs) = max_item (if snd x > snd best then x else best) xs"

definition detect_delimiter :: "string \<Rightarrow> char" where
  "detect_delimiter line =
     (if line = [] \<or> strip line = [] then CHR '',''
      else (case delimiter_counts line of
              [] \<Rightarrow> CHR '',''
            | x # xs \<Rightarrow> fst (max_item x xs)))"

section \<open>The reader: \<^verbatim>\<open>OriginDataProcessor.read_data_file\<close>\<close>

text \<open>
  Console output is not modelled. The dicts of the source are association lists in insertion
  order; \<^const>\<open>AList.update\<close> is Python's \<^verbatim>\<open>d[k] = v\<close> (an existing key keeps its place).
\<close>

primrec find_first :: "('a \<Rightarrow> bool) \<Rightarrow> 'a list \<Rightarrow> nat option" where
  \<comment> \<open>\<^verbatim>\<open>for i, x in enumerate(xs): if P(x): ...; break\<close>: the index at which the loop stops\<close>
  "find_first P [] = None"
| "find_first P (x # xs) = (if P x then Some 0 else map_option Suc (find_first P xs))"

definition fields_from :: "nat \<Rightarrow> string list \<Rightarrow> string list" where
  \<comment> \<open>\<^verbatim>\<open>[h.strip() for h in parts[n:] if h.strip()]\<close>\<close>
  "fields_from n parts = map strip (filter (\<lambda>h. strip h \<noteq> []) (drop n parts))"

subsection \<open>Step 1: the unit mapping\<close>

definition is_names_line :: "string \<Rightarrow> bool" where
  "is_names_line line = (startswith line ''AnalysisSetup'' \<and> contains line ''Datum.Name'')"

definition is_unit_line :: "string \<Rightarrow> bool" where
  "is_unit_line line = (startswith line ''AnalysisSetup'' \<and> contains line ''Datum.Unit'')"

definition find_unit_line :: "string list \<Rightarrow> nat \<Rightarrow> nat option" where
  \<comment> \<open>\<^verbatim>\<open>for j in range(i + 1, min(i + 10, len(lines)))\<close>, left at the first unit line\<close>
  "find_unit_line lines i =
     find (\<lambda>j. is_unit_line (strip (lines ! j))) [i + 1 ..< min (i + 10) (length lines)]"

definition unit_pairs :: "string list \<Rightarrow> string list \<Rightarrow> (string \<times> string) list" where
  \<comment> \<open>\<^verbatim>\<open>zip(datum_name_headers, units)\<close> from the split names line and unit line\<close>
  "unit_pairs parts unit_parts = zip (fields_from 2 parts) (fields_from 2 unit_parts)"

definition build_mapping :: "(string \<times> string) list \<Rightarrow> (string \<times> string) list" where
  \<comment> \<open>\<^verbatim>\<open>for col, unit in ...: unit_mapping[col] = unit\<close>\<close>
  "build_mapping pairs = fold (\<lambda>(col, unit). AList.update col unit) pairs []"

definition discover_units :: "string list \<Rightarrow> (string \<times> string) list" where
  "discover_units lines =
     (case find_first (\<lambda>l. is_names_line (strip l)) lines of
        None \<Rightarrow> []
      | Some i \<Rightarrow>
          let line = strip (lines ! i);
              delimiter = detect_delimiter line;
              parts = split line delimiter
          in if length parts > 2 then
               (case find_unit_line lines i of
                  None \<Rightarrow> []
                | Some j \<Rightarrow>
                    let unit_parts = split (strip (lines ! j)) delimiter
                    in if length unit_parts > 2
                       then build_mapping (unit_pairs parts unit_parts)
                       else [])
             else [])"

subsection \<open>Steps 2 and 3: the DataName line and the units of its columns\<close>

definition find_dataname :: "string list \<Rightarrow> nat option" where
  "find_dataname lines = find_first (\<lambda>l. startswith (strip l) ''DataName'') lines"

definition apply_units :: "(string \<times> string) list \<Rightarrow> string list \<Rightarrow> (string \<times> string) list" where
  \<comment> \<open>\<^verbatim>\<open>for col in data_headers: if col in unit_mapping: self.column_units[col] = unit_mapping[col]\<close>\<close>
  "apply_units unit_mapping data_headers =
     fold (\<lambda>col cu. case map_of unit_mapping col of
                       None \<Rightarrow> cu
                     | Some unit \<Rightarrow> AList.update col unit cu) data_headers []"

subsection \<open>Step 4: the columns to extract\<close>

primrec index_of :: "'a list \<Rightarrow> 'a \<Rightarrow> nat" where
  \<comment> \<open>\<^verbatim>\<open>xs.index(x)\<close>; the source calls it only on members of \<open>xs\<close>\<close>
  "index_of [] x = 0"
| "index_of (y # ys) x = (if y = x then 0 else Suc (index_of ys x))"

record selection =
  headers :: "string list"
  col_indices :: "nat list"
  missing_columns :: "string list"

definition select_columns :: "string list \<Rightarrow> string list option \<Rightarrow> selection" where
  \<comment> \<open>\<^verbatim>\<open>if need_columns:\<close> is false for \<^verbatim>\<open>None\<close> and for the empty list\<close>
  "select_columns data_headers need_columns =
     (case need_columns of
        None \<Rightarrow> \<lparr>headers = data_headers, col_indices = [0 ..< length data_headers],
                 missing_columns = []\<rparr>
      | Some need \<Rightarrow>
          if need = [] then
            \<lparr>headers = data_headers, col_indices = [0 ..< length data_headers],
             missing_columns = []\<rparr>
          else
            let valid_columns = filter (\<lambda>col. col \<in> set data_headers) need;
                missing = filter (\<lambda>col. col \<notin> set data_headers) need
            in if valid_columns \<noteq> [] then
                 \<lparr>headers = valid_columns,
                  col_indices = map (index_of data_headers) valid_columns,
                  missing_columns = missing\<rparr>
               else
                 \<lparr>headers = data_headers, col_indices = [0 ..< length data_headers],
                  missing_columns = missing\<rparr>)"

subsection \<open>Step 5: the DataValue rows\<close>

definition non_data_prefixes :: "string list" where
  "non_data_prefixes =
     [''SetupTitle'', ''PrimitiveTest'', ''TestParameter'', ''AnalysisSetup'',
      ''Dimension1'', ''Dimension2'', ''#'']"

definition clean_value :: "string \<Rightarrow> string" where
  "clean_value val =
     (let cleaned_val = strip val
      in if CHR '' '' \<in> set cleaned_val \<and>
            (CHR ''E'' \<in> set cleaned_val \<or> CHR ''e'' \<in> set cleaned_val)
         then filter (\<lambda>c. c \<noteq> CHR '' '') cleaned_val
         else cleaned_val)"

definition pad_values :: "nat \<Rightarrow> string list \<Rightarrow> string list" where
  \<comment> \<open>\<^verbatim>\<open>cleaned_values.extend([''] * (len(data_headers) - len(cleaned_values)))\<close> when short\<close>
  "pad_values n cleaned_values =
     (if length cleaned_values < n
      then cleaned_values @ replicate (n - length cleaned_values) []
      else cleaned_values)"

definition padded_values :: "char \<Rightarrow> nat \<Rightarrow> string \<Rightarrow> string list option" where
  \<comment> \<open>one pass of the loop body up to the padding; \<open>None\<close> is a \<^verbatim>\<open>continue\<close>\<close>
  "padded_values delimiter n raw =
     (let line = strip raw
      in if line = [] then None
         else if list_ex (startswith line) non_data_prefixes then None
         else if \<not> startswith line ''DataValue'' then None
         else let parts = split line delimiter
              in if length parts < 2 then None
                 else Some (pad_values n (map clean_value (drop 1 parts))))"

definition pick :: "string list \<Rightarrow> nat \<Rightarrow> string" where
  "pick cleaned_values idx = (if idx < length cleaned_values then cleaned_values ! idx else [])"

definition data_row :: "char \<Rightarrow> nat \<Rightarrow> nat list \<Rightarrow> string \<Rightarrow> string list option" where
  \<comment> \<open>the whole loop body: the row appended to \<^verbatim>\<open>data_rows\<close>, or \<open>None\<close> for a skipped line\<close>
  "data_row delimiter n indices raw =
     (case padded_values delimiter n raw of
        None \<Rightarrow> None
      | Some cleaned_values \<Rightarrow>
          let selected_values = map (pick cleaned_values) indices
          in if list_ex (\<lambda>val. strip val \<noteq> []) selected_values
             then Some selected_values else None)"

definition collect_rows :: "char \<Rightarrow> nat \<Rightarrow> nat list \<Rightarrow> string list \<Rightarrow> string list list" where
  "collect_rows delimiter n indices rest = List.map_filter (data_row delimiter n indices) rest"

subsection \<open>Step 6: the table and its column types\<close>

text \<open>
  \<^verbatim>\<open>pd.to_numeric\<close> is a library function; its number parser is the parameter \<open>to_num\<close>:
  \<open>to_num vals s\<close> is the number that the text \<open>s\<close> becomes as an entry of the column
  \<open>vals\<close> (pandas gives a column one dtype, so the stored value may depend on the other
  entries), and \<open>None\<close> where \<open>s\<close> is no number. With \<^verbatim>\<open>errors='coerce'\<close> a value that
  does not parse, and the empty string, become NaN, here \<open>None\<close>, and no exception is
  raised. When a column name occurs twice among the headers, \<^verbatim>\<open>df[col]\<close> is a frame
  rather than a series, \<^verbatim>\<open>pd.to_numeric\<close> raises, and the bare \<^verbatim>\<open>except\<close> leaves those
  columns as they are.
\<close>

datatype 'n column = Numeric "'n option list" | Text "string list"

definition to_numeric_coerce ::
  "(string list \<Rightarrow> string \<Rightarrow> 'n option) \<Rightarrow> string list \<Rightarrow> 'n option list" where
  "to_numeric_coerce to_num vals = map (\<lambda>s. if s = [] then None else to_num vals s) vals"

definition convert_types ::
  "(string list \<Rightarrow> string \<Rightarrow> 'n option) \<Rightarrow> string list \<Rightarrow> string list list \<Rightarrow>
     (string \<times> 'n column) list" where
  "convert_types to_num hdrs data_rows =
     map (\<lambda>k. let col = hdrs ! k; vals = map (\<lambda>row. row ! k) data_rows
              in (col, if count_list hdrs col = 1
                       then Numeric (to_numeric_coerce to_num vals)
                       else Text vals))
         [0 ..< length hdrs]"

subsection \<open>The whole function\<close>

datatype error = MissingColumnDeclaration | EmptyResult

record proc_state =
  column_units :: "(string \<times> string) list"
  column_order_from_dataname :: "string list"

record 'n table =
  df :: "(string \<times> 'n column) list"
  columns :: "string list"

text \<open>
  The function returns \<^verbatim>\<open>(None, None, False)\<close> on both failures; the model names the
  return site. The first component is what the call leaves in \<^verbatim>\<open>self.column_units\<close> and
  \<^verbatim>\<open>self.column_order_from_dataname\<close>, both cleared on entry.
\<close>

definition read_data_file ::
  "(string list \<Rightarrow> string \<Rightarrow> 'n option) \<Rightarrow> string list \<Rightarrow> string list option \<Rightarrow>
     proc_state \<times> (error + 'n table)" where
  "read_data_file to_num lines need_columns =
     (let unit_mapping = discover_units lines
      in case find_dataname lines of
           None \<Rightarrow>
             (\<lparr>column_units = [], column_order_from_dataname = []\<rparr>,
              Inl MissingColumnDeclaration)
         | Some data_start_line \<Rightarrow>
             let line = strip (lines ! data_start_line);
                 delimiter = detect_delimiter line;
                 data_headers = fields_from 1 (split line delimiter);
                 st = \<lparr>column_units = apply_units unit_mapping data_headers,
                       column_order_from_dataname = data_headers\<rparr>;
                 sel = select_columns data_headers need_columns;
                 data_rows = collect_rows delimiter (length data_headers) (col_indices sel)
                               (drop (Suc data_start_line) lines)
             in if data_rows = [] then (st, Inl EmptyResult)
                else (st, Inr \<lparr>df = convert_types to_num (headers sel) data_rows,
                               columns = headers sel\<rparr>))"

subsection \<open>A number parser to run the reader on concrete files\<close>

text \<open>
  The theorems below hold for every parser \<open>to_num\<close>. Concrete runs use this one, which
  reads unsigned decimal integers only and gives a text the same number in every column.
\<close>

definition parse_nat :: "string \<Rightarrow> nat option" where
  "parse_nat s =
     (if s \<noteq> [] \<and> list_all (\<lambda>c. c \<in> set ''0123456789'') s
      then Some (foldl (\<lambda>a c. 10 * a + (of_char c - 48)) 0 s)
      else None)"

section \<open>Properties of the delimiter detector\<close>

lemma strip_Nil: "strip [] = []"
  by (simp add: strip_def)

lemma detect_delimiter_explicit:
  assumes "strip line \<noteq> []"
  shows "detect_delimiter line =
     (if count_list line (CHR 0x09) \<le> count_list line (CHR '','') \<and>
         count_list line (CHR '';'') \<le> count_list line (CHR '','') \<and>
         count_list line (CHR ''|'') \<le> count_list line (CHR '','') then CHR '',''
      else if count_list line (CHR '';'') \<le> count_list line (CHR 0x09) \<and>
         count_list line (CHR ''|'') \<le> count_list line (CHR 0x09) then CHR 0x09
      else if count_list line (CHR ''|'') \<le> count_list line (CHR '';'') then CHR '';''
      else CHR ''|'')"
proof -
  from assms have "line \<noteq> []"
    by (auto simp: strip_Nil)
  with assms show ?thesis
    unfolding detect_delimiter_def delimiter_counts_def possible_delimiters_def
    by (simp del: count_list.simps)
qed

lemma detect_delimiter_nonblank:
  assumes "strip line \<noteq> []"
  shows "\<exists>k < length possible_delimiters.
      detect_delimiter line = possible_delimiters ! k \<and>
      (\<forall>j < length possible_delimiters.
          count_list line (possible_delimiters ! j) \<le> count_list line (possible_delimiters ! k)) \<and>
      (\<forall>j < k. count_list line (possible_delimiters ! j) < count_list line (possible_delimiters ! k))"
proof -
  let ?a = "count_list line (CHR '','')" and ?b = "count_list line (CHR 0x09)"
  and ?c = "count_list line (CHR '';'')" and ?d = "count_list line (CHR ''|'')"
  have all4: "\<And>P. (\<forall>j<Suc (Suc (Suc (Suc 0))). P j) =
      (P 0 \<and> P (Suc 0) \<and> P (Suc (Suc 0)) \<and> P (Suc (Suc (Suc 0))))"
    by (auto simp: less_Suc_eq)
  note e = detect_delimiter_explicit [OF assms]
  consider (comma) "?b \<le> ?a" "?c \<le> ?a" "?d \<le> ?a"
    | (tab) "\<not> (?b \<le> ?a \<and> ?c \<le> ?a \<and> ?d \<le> ?a)" "?c \<le> ?b" "?d \<le> ?b"
    | (semi) "\<not> (?b \<le> ?a \<and> ?c \<le> ?a \<and> ?d \<le> ?a)" "\<not> (?c \<le> ?b \<and> ?d \<le> ?b)" "?d \<le> ?c"
    | (bar) "\<not> (?b \<le> ?a \<and> ?c \<le> ?a \<and> ?d \<le> ?a)" "\<not> (?c \<le> ?b \<and> ?d \<le> ?b)" "\<not> ?d \<le> ?c"
    by blast
  then show ?thesis
  proof cases
    case comma
    then show ?thesis using e
      by (intro exI [of _ 0]) (simp add: possible_delimiters_def all4)
  next
    case tab
    then show ?thesis using e
      by (intro exI [of _ "Suc 0"]) (auto simp: possible_delimiters_def all4)
  next
    case semi
    then show ?thesis using e
      by (intro exI [of _ "Suc (Suc 0)"]) (auto simp: possible_delimiters_def all4 less_Suc_eq)
  next
    case bar
    then show ?thesis using e
      by (intro exI [of _ "Suc (Suc (Suc 0))"])
        (auto simp: possible_delimiters_def all4 less_Suc_eq)
  qed
qed

text \<open>
  C4, as the code has it. A line that is empty or consists of whitespace only is answered
  with the comma before anything is counted, also when it contains tabs. On every other line
  the detector returns the candidate at the first position \<open>k\<close> of the priority list whose
  count is maximal: no candidate has a larger count and every candidate before \<open>k\<close> has a
  strictly smaller one (so the comma when no candidate occurs). The function has no error
  outcome.
\<close>

theorem detect_delimiter_first_maximal:
  "(strip line = [] \<longrightarrow> detect_delimiter line = CHR '','') \<and>
   (strip line \<noteq> [] \<longrightarrow>
      (\<exists>k < length possible_delimiters.
         detect_delimiter line = possible_delimiters ! k \<and>
         (\<forall>j < length possible_delimiters.
            count_list line (possible_delimiters ! j) \<le> count_list line (possible_delimiters ! k)) \<and>
         (\<forall>j < k. count_list line (possible_delimiters ! j)
                    < count_list line (possible_delimiters ! k))))"
  using detect_delimiter_nonblank [of line] by (simp add: detect_delimiter_def)

theorem detect_delimiter_first_maximal_witness:
  "strip ''a;b,c;d'' \<noteq> [] \<and> detect_delimiter ''a;b,c;d'' = CHR '';'' \<and>
   (\<exists>k < length possible_delimiters.
      detect_delimiter ''a;b,c;d'' = possible_delimiters ! k \<and>
      (\<forall>j < length possible_delimiters.
         count_list ''a;b,c;d'' (possible_delimiters ! j)
           \<le> count_list ''a;b,c;d'' (possible_delimiters ! k)) \<and>
      (\<forall>j < k. count_list ''a;b,c;d'' (possible_delimiters ! j)
                 < count_list ''a;b,c;d'' (possible_delimiters ! k)))"
proof -
  have nonblank: "strip ''a;b,c;d'' \<noteq> []"
    by code_simp
  have val: "detect_delimiter ''a;b,c;d'' = CHR '';''"
    by code_simp
  from nonblank val detect_delimiter_first_maximal [of "''a;b,c;d''"] show ?thesis
    by blast
qed

text \<open>
  C4 as stated fails on a line holding a single tab: the tab occurs once, the comma never,
  and the detector returns the comma.
\<close>

theorem detect_delimiter_tab_line_counterexample:
  "detect_delimiter [CHR 0x09] = CHR '','' \<and>
   count_list [CHR 0x09] (CHR '','') < count_list [CHR 0x09] (CHR 0x09)"
  by code_simp

section \<open>Properties of the reader\<close>

subsection \<open>Auxiliary facts\<close>

lemma find_first_None_iff: "find_first P xs = None \<longleftrightarrow> (\<forall>x\<in>set xs. \<not> P x)"
  by (induction xs) auto

lemma map_filter_Nil_iff: "List.map_filter f xs = [] \<longleftrightarrow> (\<forall>x\<in>set xs. f x = None)"
  by (induction xs) (auto simp: List.map_filter_simps split: option.splits)

lemma data_row_None_iff:
  "data_row d n idxs raw = None \<longleftrightarrow>
     (strip raw = [] \<or> list_ex (startswith (strip raw)) non_data_prefixes \<or>
      \<not> startswith (strip raw) ''DataValue'' \<or> length (split (strip raw) d) < 2 \<or>
      (\<forall>idx\<in>set idxs.
          strip (pick (pad_values n (map clean_value (drop 1 (split (strip raw) d)))) idx) = []))"
  by (simp add: data_row_def padded_values_def Let_def list_ex_iff)

lemma padded_values_length:
  assumes "padded_values d n raw = Some vs"
  shows "length vs = max n (length (split (strip raw) d) - 1)"
  using assms
  by (auto simp: padded_values_def pad_values_def Let_def split: if_splits)

lemma map_of_apply_units_fold:
  "map_of (fold (\<lambda>col cu. case map_of um col of None \<Rightarrow> cu
                          | Some unit \<Rightarrow> AList.update col unit cu) D acc) name =
     (if name \<in> set D then (case map_of um name of None \<Rightarrow> map_of acc name | Some u \<Rightarrow> Some u)
      else map_of acc name)"
  by (induction D arbitrary: acc) (auto simp: update_conv' split: option.splits)

lemma map_of_apply_units:
  "map_of (apply_units um D) name = (if name \<in> set D then map_of um name else None)"
  by (simp add: apply_units_def map_of_apply_units_fold split: option.splits)

lemma keys_apply_units: "fst ` set (apply_units um D) \<subseteq> set D"
proof
  fix k assume "k \<in> fst ` set (apply_units um D)"
  then have "k \<in> dom (map_of (apply_units um D))"
    by (simp add: dom_map_of_conv_image_fst)
  then show "k \<in> set D"
    by (auto simp: map_of_apply_units split: if_splits)
qed

lemma state_of_read_data_file:
  "fst (read_data_file to_num lines need) =
     (case find_dataname lines of
        None \<Rightarrow> \<lparr>column_units = [], column_order_from_dataname = []\<rparr>
      | Some i \<Rightarrow>
          \<lparr>column_units = apply_units (discover_units lines)
             (fields_from 1 (split (strip (lines ! i)) (detect_delimiter (strip (lines ! i))))),
           column_order_from_dataname =
             fields_from 1 (split (strip (lines ! i)) (detect_delimiter (strip (lines ! i))))\<rparr>)"
  by (simp add: read_data_file_def Let_def split: option.splits)

lemma map_fst_convert_types: "map fst (convert_types to_num hdrs rows) = hdrs"
  by (simp add: convert_types_def Let_def comp_def map_nth)

lemma read_data_file_Inr:
  assumes "read_data_file to_num lines need = (st, Inr t)"
  shows "columns t = headers (select_columns (column_order_from_dataname st) need) \<and>
         map fst (df t) = columns t"
  using assms
  by (auto simp: read_data_file_def Let_def map_fst_convert_types split: option.splits if_splits)

lemma headers_select_columns:
  "headers (select_columns D (Some R)) =
     (if filter (\<lambda>c. c \<in> set D) R \<noteq> [] then filter (\<lambda>c. c \<in> set D) R else D)"
  by (auto simp: select_columns_def Let_def)

lemma find_upt_Some:
  assumes "a \<le> j" "j < b" "P j" "\<forall>k\<in>{a..<j}. \<not> P k"
  shows "find P [a..<b] = Some j"
proof -
  have "\<exists>i<length [a..<b]. P ([a..<b] ! i) \<and> j = [a..<b] ! i \<and> (\<forall>k<i. \<not> P ([a..<b] ! k))"
  proof (intro exI [of _ "j - a"] conjI allI impI)
    show "j - a < length [a..<b]" using assms(1,2) by simp
    show "P ([a..<b] ! (j - a))" using assms(1-3) by simp
    show "j = [a..<b] ! (j - a)" using assms(1,2) by simp
    fix k assume "k < j - a"
    then show "\<not> P ([a..<b] ! k)" using assms(1,2,4) by simp
  qed
  then show ?thesis by (simp only: find_Some_iff)
qed

lemma find_upt_None: "\<forall>k\<in>{a..<b}. \<not> P k \<Longrightarrow> find P [a..<b] = None"
  by (simp add: find_None_iff)

lemma apply_units_Nil: "apply_units [] D = []"
proof -
  have "fold (\<lambda>col cu. cu) D acc = acc" for acc :: "(string \<times> string) list"
    by (induction D) simp_all
  then show ?thesis by (simp add: apply_units_def)
qed

lemma filter_nth_position:
  "i < length (filter P xs) \<Longrightarrow>
     \<exists>p<length xs. P (xs ! p) \<and> length (filter P (take p xs)) = i \<and> filter P xs ! i = xs ! p"
proof (induction xs arbitrary: i)
  case Nil
  then show ?case by simp
next
  case (Cons x xs)
  show ?case
  proof (cases "P x \<and> i = 0")
    case True
    then show ?thesis by (intro exI [of _ 0]) simp
  next
    case False
    define i' where "i' = (if P x then i - 1 else i)"
    from False Cons.prems have "i' < length (filter P xs)"
      by (auto simp: i'_def)
    from Cons.IH [OF this] obtain p where p: "p < length xs" "P (xs ! p)"
      "length (filter P (take p xs)) = i'" "filter P xs ! i' = xs ! p"
      by blast
    from False p show ?thesis
      by (intro exI [of _ "Suc p"]) (auto simp: i'_def nth_Cons')
  qed
qed

lemma filter_nth_at:
  assumes "k < length xs" "P (xs ! k)"
  shows "length (filter P (take k xs)) < length (filter P xs) \<and>
         filter P xs ! length (filter P (take k xs)) = xs ! k"
proof -
  have "xs = take k xs @ xs ! k # drop (Suc k) xs"
    using assms(1) by (rule id_take_nth_drop)
  then have "filter P xs = filter P (take k xs) @ xs ! k # filter P (drop (Suc k) xs)"
    using assms(2) by (metis filter.simps(2) filter_append)
  then show ?thesis
    by (simp add: nth_append)
qed

lemma filter_take_nth:
  assumes "q < length (filter P (take k xs))"
  shows "q < length (filter P xs) \<and> filter P xs ! q = filter P (take k xs) ! q"
proof -
  have "filter P xs = filter P (take k xs) @ filter P (drop k xs)"
    by (metis append_take_drop_id filter_append)
  with assms show ?thesis
    by (simp add: nth_append)
qed

lemma index_of_member:
  "c \<in> set D \<Longrightarrow> index_of D c < length D \<and> D ! index_of D c = c"
  by (induction D) auto

lemma read_data_file_found:
  assumes "find_dataname lines = Some d"
    and "delimiter = detect_delimiter (strip (lines ! d))"
    and "D = fields_from 1 (split (strip (lines ! d)) delimiter)"
    and "rows = collect_rows delimiter (length D) (col_indices (select_columns D need))
                  (drop (Suc d) lines)"
  shows "read_data_file to_num lines need =
           (\<lparr>column_units = apply_units (discover_units lines) D, column_order_from_dataname = D\<rparr>,
            if rows = [] then Inl EmptyResult
            else Inr \<lparr>df = convert_types to_num (headers (select_columns D need)) rows,
                      columns = headers (select_columns D need)\<rparr>)"
  using assms by (simp add: read_data_file_def Let_def)

lemma collect_rows_nonempty:
  assumes "d < r" "r < length lines" "data_row delimiter n idxs (lines ! r) = Some row"
  shows "collect_rows delimiter n idxs (drop (Suc d) lines) \<noteq> []"
proof -
  from assms(1,2) have "drop (Suc d) lines ! (r - Suc d) = lines ! r"
      and "r - Suc d < length (drop (Suc d) lines)"
    by simp_all
  then have "lines ! r \<in> set (drop (Suc d) lines)"
    by (metis nth_mem)
  with assms(3) show ?thesis
    by (auto simp: collect_rows_def map_filter_Nil_iff)
qed

subsection \<open>Failure outcomes\<close>

text \<open>
  C3. When no line of the file, once stripped, starts with \<^verbatim>\<open>DataName\<close>, the call fails
  with the missing-declaration outcome: it returns no table, and both instance fields are
  left empty.
\<close>

theorem missing_dataname_fails:
  assumes "\<forall>l\<in>set lines. \<not> startswith (strip l) ''DataName''"
  shows "read_data_file to_num lines need_columns =
           (\<lparr>column_units = [], column_order_from_dataname = []\<rparr>, Inl MissingColumnDeclaration)"
proof -
  from assms have "find_dataname lines = None"
    by (simp add: find_dataname_def find_first_None_iff)
  then show ?thesis
    by (simp add: read_data_file_def)
qed

theorem missing_dataname_fails_witness:
  "list_all (\<lambda>l. \<not> startswith (strip l) ''DataName'')
     [''AnalysisSetup,Datum.Name,Temp'', ''DataValue,1''] \<and>
   read_data_file (\<lambda>vals. parse_nat) [''AnalysisSetup,Datum.Name,Temp'', ''DataValue,1''] None =
     (\<lparr>column_units = [], column_order_from_dataname = []\<rparr>, Inl MissingColumnDeclaration)"
proof -
  have h: "list_all (\<lambda>l. \<not> startswith (strip l) ''DataName'')
     [''AnalysisSetup,Datum.Name,Temp'', ''DataValue,1'']"
    by code_simp
  then have "\<forall>l\<in>set [''AnalysisSetup,Datum.Name,Temp'', ''DataValue,1''].
      \<not> startswith (strip l) ''DataName''"
    by (simp only: list_all_iff)
  from h missing_dataname_fails [OF this, of "\<lambda>vals. parse_nat" None] show ?thesis
    by blast
qed

text \<open>
  C7. When the DataName line is found at index \<open>i\<close> and every later line is blank, starts
  with a non-data prefix, does not start with \<^verbatim>\<open>DataValue\<close>, splits into fewer than two
  fields, or is empty in every selected column after cleaning and padding, no row is
  collected and the call fails with the empty-result outcome, returning no table.
\<close>

theorem no_rows_fails:
  assumes "find_dataname lines = Some i"
    and "delimiter = detect_delimiter (strip (lines ! i))"
    and "data_headers = fields_from 1 (split (strip (lines ! i)) delimiter)"
    and "\<forall>raw\<in>set (drop (Suc i) lines).
           strip raw = [] \<or> list_ex (startswith (strip raw)) non_data_prefixes \<or>
           \<not> startswith (strip raw) ''DataValue'' \<or> length (split (strip raw) delimiter) < 2 \<or>
           (\<forall>idx\<in>set (col_indices (select_columns data_headers need_columns)).
              strip (pick (pad_values (length data_headers)
                       (map clean_value (drop 1 (split (strip raw) delimiter)))) idx) = [])"
  shows "read_data_file to_num lines need_columns =
           (\<lparr>column_units = apply_units (discover_units lines) data_headers,
             column_order_from_dataname = data_headers\<rparr>, Inl EmptyResult)"
proof -
  from assms(4) have "collect_rows delimiter (length data_headers)
      (col_indices (select_columns data_headers need_columns)) (drop (Suc i) lines) = []"
    unfolding collect_rows_def map_filter_Nil_iff data_row_None_iff .
  with assms(1-3) show ?thesis
    by (simp add: read_data_file_def Let_def)
qed

theorem no_rows_fails_witness:
  "find_dataname [''DataName,T,U'', [CHR 0x0A], ''#comment'', ''Other,1'', ''DataValue'',
                  ''DataValue,,''] = Some 0 \<and>
   read_data_file (\<lambda>vals. parse_nat) [''DataName,T,U'', [CHR 0x0A], ''#comment'', ''Other,1'',
                  ''DataValue'', ''DataValue,,''] None =
     (\<lparr>column_units = [], column_order_from_dataname = [''T'', ''U'']\<rparr>, Inl EmptyResult)"
proof -
  let ?F = "[''DataName,T,U'', [CHR 0x0A], ''#comment'', ''Other,1'', ''DataValue'',
             ''DataValue,,'']"
  have h1: "find_dataname ?F = Some 0"
    by code_simp
  have h2: "CHR '','' = detect_delimiter (strip (?F ! 0))"
    by code_simp
  have h3: "[''T'', ''U''] = fields_from 1 (split (strip (?F ! 0)) (CHR '',''))"
    by code_simp
  have h4: "\<forall>raw\<in>set (drop (Suc 0) ?F).
           strip raw = [] \<or> list_ex (startswith (strip raw)) non_data_prefixes \<or>
           \<not> startswith (strip raw) ''DataValue'' \<or> length (split (strip raw) (CHR '','')) < 2 \<or>
           (\<forall>idx\<in>set (col_indices (select_columns [''T'', ''U''] None)).
              strip (pick (pad_values (length [''T'', ''U''])
                       (map clean_value (drop 1 (split (strip raw) (CHR '',''))))) idx) = [])"
    by code_simp
  have h5: "apply_units (discover_units ?F) [''T'', ''U''] = []"
    by code_simp
  from no_rows_fails [OF h1 h2 h3 h4, of "\<lambda>vals. parse_nat"] h1 h5 show ?thesis
    by simp
qed

subsection \<open>Padding of data rows\<close>

text \<open>
  C8, as the code has it. A row is padded on the right up to the number of declared columns
  and never cut: after cleaning and padding it holds at least as many values as the DataName
  line declares, namely the larger of that number and the number of values on the line, and
  exactly that many when the line carries no more values than declared.
\<close>

theorem padded_row_length:
  assumes "padded_values delimiter (length data_headers) raw = Some vs"
  shows "length data_headers \<le> length vs \<and>
         length vs = max (length data_headers) (length (split (strip raw) delimiter) - 1) \<and>
         (length (split (strip raw) delimiter) - 1 \<le> length data_headers
            \<longrightarrow> length vs = length data_headers)"
  using padded_values_length [OF assms] by simp

theorem padded_row_length_witness:
  "padded_values (CHR '','') (length [''Temp'', ''Pressure'']) ''DataValue,25'' = Some [''25'', []] \<and>
   length [''25'', []] = length [''Temp'', ''Pressure'']"
proof -
  have h: "padded_values (CHR '','') (length [''Temp'', ''Pressure'']) ''DataValue,25''
             = Some [''25'', []]"
    by code_simp
  from h padded_row_length [OF h] show ?thesis
    by simp
qed

text \<open>
  C8 as stated fails on a row longer than the declaration: with the single declared column
  \<open>T\<close>, the line \<^verbatim>\<open>DataValue,1,2\<close> keeps both values.
\<close>

theorem padded_row_longer_counterexample:
  "padded_values (detect_delimiter ''DataName,T'')
      (length (fields_from 1 (split ''DataName,T'' (CHR '',''))))
      ''DataValue,1,2'' = Some [''1'', ''2''] \<and>
   length [''1'', ''2''] \<noteq> length (fields_from 1 (split ''DataName,T'' (CHR '','')))"
  by code_simp

subsection \<open>Units of the declared columns\<close>

text \<open>
  C9. Whatever the call leaves in \<^verbatim>\<open>self.column_units\<close>, each of its keys is a name of
  the DataName line. A declared name has the unit that the unit mapping of step 1 gives it,
  and none when that mapping has no entry for it; a name outside the DataName line has no
  entry. Nothing in this step can fail.
\<close>

theorem column_units_within_order:
  assumes "fst (read_data_file to_num lines need_columns) = st"
  shows "fst ` set (column_units st) \<subseteq> set (column_order_from_dataname st) \<and>
         (\<forall>name. map_of (column_units st) name =
            (if name \<in> set (column_order_from_dataname st)
             then map_of (discover_units lines) name else None))"
proof (cases "find_dataname lines")
  case None
  with assms have "st = \<lparr>column_units = [], column_order_from_dataname = []\<rparr>"
    by (simp add: state_of_read_data_file)
  then show ?thesis by simp
next
  case (Some i)
  define D where "D = fields_from 1 (split (strip (lines ! i)) (detect_delimiter (strip (lines ! i))))"
  from assms Some have st: "st = \<lparr>column_units = apply_units (discover_units lines) D,
      column_order_from_dataname = D\<rparr>"
    by (simp add: state_of_read_data_file D_def)
  show ?thesis
    unfolding st using keys_apply_units [of "discover_units lines" D]
    by (simp add: map_of_apply_units)
qed

theorem column_units_within_order_witness:
  "fst (read_data_file (\<lambda>vals. parse_nat)
         [''AnalysisSetup,Datum.Name,Temp,Extra'', ''AnalysisSetup,Datum.Unit,C,x'',
          ''DataName,Temp,Humidity'', ''DataValue,25,40''] None) =
     \<lparr>column_units = [(''Temp'', ''C'')], column_order_from_dataname = [''Temp'', ''Humidity'']\<rparr> \<and>
   map_of [(''Temp'', ''C'')] ''Extra'' = None \<and>
   map_of [(''Temp'', ''C'')] ''Humidity'' = None \<and>
   fst ` set [(''Temp'', ''C'')] \<subseteq> set [''Temp'', ''Humidity'']"
proof -
  let ?F = "[''AnalysisSetup,Datum.Name,Temp,Extra'', ''AnalysisSetup,Datum.Unit,C,x'',
          ''DataName,Temp,Humidity'', ''DataValue,25,40'']"
  have h: "fst (read_data_file (\<lambda>vals. parse_nat) ?F None) =
     \<lparr>column_units = [(''Temp'', ''C'')], column_order_from_dataname = [''Temp'', ''Humidity'']\<rparr>"
    by code_simp
  from h column_units_within_order [OF h] show ?thesis
    by simp
qed

subsection \<open>The selected columns\<close>

text \<open>
  C1, as the code has it. When the call succeeds and at least one requested name is a name
  of the DataName line, the columns of the table are the requested names that occur in the
  DataName line, in the order (and as often as) the caller listed them; the table's column
  labels are these names. In particular a request that is a permutation of the DataName
  names comes back in the caller's order.
\<close>

theorem selection_follows_request_order:
  assumes "read_data_file to_num lines (Some R) = (st, Inr t)"
    and "D = column_order_from_dataname st"
    and "\<exists>c\<in>set R. c \<in> set D"
  shows "columns t = filter (\<lambda>c. c \<in> set D) R \<and> map fst (df t) = columns t \<and>
         (mset R = mset D \<longrightarrow> columns t = R)"
proof -
  from assms(3) have ne: "filter (\<lambda>c. c \<in> set D) R \<noteq> []"
    by (simp add: filter_empty_conv)
  from read_data_file_Inr [OF assms(1)] assms(2) ne
  have c: "columns t = filter (\<lambda>c. c \<in> set D) R" and d: "map fst (df t) = columns t"
    by (simp_all add: headers_select_columns)
  have "columns t = R" if "mset R = mset D"
  proof -
    from that have "set R = set D" by (rule mset_eq_setD)
    with c show ?thesis by simp
  qed
  with c d show ?thesis by blast
qed

theorem selection_follows_request_order_witness:
  "read_data_file (\<lambda>vals. parse_nat) [''DataName,Temp,Pressure'', ''DataValue,25,101'']
       (Some [''Pressure'', ''Temp'']) =
     (\<lparr>column_units = [], column_order_from_dataname = [''Temp'', ''Pressure'']\<rparr>,
      Inr \<lparr>df = [(''Pressure'', Numeric [Some 101]), (''Temp'', Numeric [Some 25])],
           columns = [''Pressure'', ''Temp'']\<rparr>) \<and>
   (\<exists>c\<in>set [''Pressure'', ''Temp'']. c \<in> set [''Temp'', ''Pressure'']) \<and>
   mset [''Pressure'', ''Temp''] = mset [''Temp'', ''Pressure''] \<and>
   columns \<lparr>df = [(''Pressure'', Numeric [Some (101::nat)]), (''Temp'', Numeric [Some 25])],
            columns = [''Pressure'', ''Temp'']\<rparr> = [''Pressure'', ''Temp'']"
proof -
  let ?st = "\<lparr>column_units = [], column_order_from_dataname = [''Temp'', ''Pressure'']\<rparr>"
  let ?t = "\<lparr>df = [(''Pressure'', Numeric [Some (101::nat)]), (''Temp'', Numeric [Some 25])],
             columns = [''Pressure'', ''Temp'']\<rparr>"
  have h1: "read_data_file (\<lambda>vals. parse_nat) [''DataName,Temp,Pressure'', ''DataValue,25,101'']
       (Some [''Pressure'', ''Temp'']) = (?st, Inr ?t)"
    by code_simp
  have h2: "[''Temp'', ''Pressure''] = column_order_from_dataname ?st"
    by simp
  have h3: "\<exists>c\<in>set [''Pressure'', ''Temp'']. c \<in> set [''Temp'', ''Pressure'']"
    by simp
  have h4: "mset [''Pressure'', ''Temp''] = mset [''Temp'', ''Pressure'']"
    by (simp add: add.commute)
  from selection_follows_request_order [OF h1 h2 h3] h1 h3 h4 show ?thesis
    by blast
qed

text \<open>
  C1 as stated fails when the caller asks for \<open>Pressure, Temp\<close> from a file declaring
  \<open>Temp, Pressure\<close>: the table's columns are \<open>Pressure, Temp\<close>, not the declared order.
\<close>

theorem request_order_counterexample:
  "column_order_from_dataname (fst (read_data_file (\<lambda>vals. parse_nat)
       [''DataName,Temp,Pressure'', ''DataValue,25,101''] (Some [''Pressure'', ''Temp''])))
     = [''Temp'', ''Pressure''] \<and>
   map_sum id columns (snd (read_data_file (\<lambda>vals. parse_nat)
       [''DataName,Temp,Pressure'', ''DataValue,25,101''] (Some [''Pressure'', ''Temp''])))
     = Inr [''Pressure'', ''Temp'']"
  by code_simp

text \<open>
  C6. Let \<open>D\<close> be the names of the DataName line and \<open>valid\<close> the requested names that
  are equal to a name of \<open>D\<close>. Step 4 selects the headers \<open>valid\<close>, each with its position in
  \<open>D\<close>, when \<open>valid\<close> is not empty, and all of \<open>D\<close> only when it is empty; the names it
  reports missing are exactly the requested names outside \<open>D\<close>. The call's result follows
  from that selection alone: the rows are read through these positions, the call fails only
  when no row is collected, and otherwise it returns the table under these headers. The
  missing names change nothing: the result is that of the request \<open>valid\<close> or, when nothing
  matched, that of a call without a request.
\<close>

theorem requested_columns_matched_or_all:
  assumes "find_dataname lines = Some d"
    and "delimiter = detect_delimiter (strip (lines ! d))"
    and "D = fields_from 1 (split (strip (lines ! d)) delimiter)"
    and "valid = filter (\<lambda>c. c \<in> set D) R"
    and "hdrs = (if valid \<noteq> [] then valid else D)"
    and "idxs = (if valid \<noteq> [] then map (index_of D) valid else [0 ..< length D])"
    and "rows = collect_rows delimiter (length D) idxs (drop (Suc d) lines)"
  shows "select_columns D (Some R) =
           \<lparr>headers = hdrs, col_indices = idxs,
            missing_columns = filter (\<lambda>c. c \<notin> set D) R\<rparr> \<and>
         length idxs = length hdrs \<and>
         (\<forall>k<length hdrs. idxs ! k < length D \<and> D ! (idxs ! k) = hdrs ! k) \<and>
         read_data_file to_num lines (Some R) =
           (\<lparr>column_units = apply_units (discover_units lines) D, column_order_from_dataname = D\<rparr>,
            if rows = [] then Inl EmptyResult
            else Inr \<lparr>df = convert_types to_num hdrs rows, columns = hdrs\<rparr>) \<and>
         read_data_file to_num lines (Some R) =
           read_data_file to_num lines (if valid \<noteq> [] then Some valid else None)"
proof -
  have sel: "select_columns D (Some R) =
           \<lparr>headers = hdrs, col_indices = idxs,
            missing_columns = filter (\<lambda>c. c \<notin> set D) R\<rparr>"
    by (cases "R = []") (auto simp: select_columns_def Let_def assms(4-6))
  have len: "length idxs = length hdrs"
    by (simp add: assms(5,6))
  have pos: "idxs ! k < length D \<and> D ! (idxs ! k) = hdrs ! k" if "k < length hdrs" for k
  proof (cases "valid = []")
    case True
    with that show ?thesis by (simp add: assms(5,6))
  next
    case False
    with that have k: "k < length valid" by (simp add: assms(5))
    then have "valid ! k \<in> set valid" by simp
    then have "valid ! k \<in> set D" by (simp add: assms(4))
    from index_of_member [OF this] False k show ?thesis
      by (simp add: assms(5,6))
  qed
  have res: "read_data_file to_num lines (Some R) =
           (\<lparr>column_units = apply_units (discover_units lines) D, column_order_from_dataname = D\<rparr>,
            if rows = [] then Inl EmptyResult
            else Inr \<lparr>df = convert_types to_num hdrs rows, columns = hdrs\<rparr>)"
    using read_data_file_found [OF assms(1-3) refl, where need = "Some R" and to_num = to_num]
    by (simp add: sel assms(7))
  have sel': "headers (select_columns D (if valid \<noteq> [] then Some valid else None)) = hdrs \<and>
        col_indices (select_columns D (if valid \<noteq> [] then Some valid else None)) = idxs"
    by (auto simp: select_columns_def Let_def assms(4-6))
  have "read_data_file to_num lines (if valid \<noteq> [] then Some valid else None) =
           (\<lparr>column_units = apply_units (discover_units lines) D, column_order_from_dataname = D\<rparr>,
            if rows = [] then Inl EmptyResult
            else Inr \<lparr>df = convert_types to_num hdrs rows, columns = hdrs\<rparr>)"
    using read_data_file_found [OF assms(1-3) refl,
        where need = "if valid \<noteq> [] then Some valid else None" and to_num = to_num]
    by (simp only: sel' assms(7))
  with res have same: "read_data_file to_num lines (Some R) =
           read_data_file to_num lines (if valid \<noteq> [] then Some valid else None)"
    by simp
  from sel len pos res same show ?thesis
    by blast
qed

theorem requested_columns_matched_or_all_witness:
  "read_data_file (\<lambda>vals. parse_nat)
     [''AnalysisSetup,Datum.Name,Temp,Pressure'', ''AnalysisSetup,Datum.Unit,C,kPa'',
      ''DataName,Temp,Pressure'', ''DataValue,25,101'', ''DataValue,30,99'']
     (Some [''Pressure'', ''Humidity'']) =
     (\<lparr>column_units = [(''Temp'', ''C''), (''Pressure'', ''kPa'')],
       column_order_from_dataname = [''Temp'', ''Pressure'']\<rparr>,
      Inr \<lparr>df = [(''Pressure'', Numeric [Some 101, Some 99])], columns = [''Pressure'']\<rparr>) \<and>
   select_columns [''Temp'', ''Pressure''] (Some [''Pressure'', ''Humidity'']) =
     \<lparr>headers = [''Pressure''], col_indices = [1], missing_columns = [''Humidity'']\<rparr> \<and>
   read_data_file (\<lambda>vals. parse_nat)
     [''AnalysisSetup,Datum.Name,Temp,Pressure'', ''AnalysisSetup,Datum.Unit,C,kPa'',
      ''DataName,Temp,Pressure'', ''DataValue,25,101'', ''DataValue,30,99'']
     (Some [''Humidity'']) =
     (\<lparr>column_units = [(''Temp'', ''C''), (''Pressure'', ''kPa'')],
       column_order_from_dataname = [''Temp'', ''Pressure'']\<rparr>,
      Inr \<lparr>df = [(''Temp'', Numeric [Some 25, Some 30]), (''Pressure'', Numeric [Some 101, Some 99])],
           columns = [''Temp'', ''Pressure'']\<rparr>) \<and>
   select_columns [''Temp'', ''Pressure''] (Some [''Humidity'']) =
     \<lparr>headers = [''Temp'', ''Pressure''], col_indices = [0, 1], missing_columns = [''Humidity'']\<rparr>"
proof -
  let ?F = "[''AnalysisSetup,Datum.Name,Temp,Pressure'', ''AnalysisSetup,Datum.Unit,C,kPa'',
      ''DataName,Temp,Pressure'', ''DataValue,25,101'', ''DataValue,30,99'']"
  let ?D = "[''Temp'', ''Pressure'']"
  have h1: "find_dataname ?F = Some 2"
    by code_simp
  have h2: "CHR '','' = detect_delimiter (strip (?F ! 2))"
    by code_simp
  have h3: "?D = fields_from 1 (split (strip (?F ! 2)) (CHR '',''))"
    by code_simp
  have u: "apply_units (discover_units ?F) ?D = [(''Temp'', ''C''), (''Pressure'', ''kPa'')]"
    by code_simp
  have a4: "[''Pressure''] = filter (\<lambda>c. c \<in> set ?D) [''Pressure'', ''Humidity'']"
    by simp
  have a5: "[''Pressure''] = (if [''Pressure''] \<noteq> [] then [''Pressure''] else ?D)"
    by simp
  have a6: "[1] = (if [''Pressure''] \<noteq> [] then map (index_of ?D) [''Pressure'']
                   else [0 ..< length ?D])"
    by code_simp
  have a7: "[[''101''], [''99'']] = collect_rows (CHR '','') (length ?D) [1] (drop (Suc 2) ?F)"
    by code_simp
  have a8: "convert_types (\<lambda>vals. parse_nat) [''Pressure''] [[''101''], [''99'']]
              = [(''Pressure'', Numeric [Some 101, Some 99])]"
    by code_simp
  have a9: "filter (\<lambda>c. c \<notin> set ?D) [''Pressure'', ''Humidity''] = [''Humidity'']"
    by simp
  have b4: "[] = filter (\<lambda>c. c \<in> set ?D) [''Humidity'']"
    by simp
  have b5: "?D = (if [] \<noteq> ([] :: string list) then [] else ?D)"
    by simp
  have b6: "[0, 1] = (if [] \<noteq> ([] :: string list) then map (index_of ?D) []
                      else [0 ..< length ?D])"
    by code_simp
  have b7: "[[''25'', ''101''], [''30'', ''99'']]
              = collect_rows (CHR '','') (length ?D) [0, 1] (drop (Suc 2) ?F)"
    by code_simp
  have b8: "convert_types (\<lambda>vals. parse_nat) ?D [[''25'', ''101''], [''30'', ''99'']]
              = [(''Temp'', Numeric [Some 25, Some 30]), (''Pressure'', Numeric [Some 101, Some 99])]"
    by code_simp
  have b9: "filter (\<lambda>c. c \<notin> set ?D) [''Humidity''] = [''Humidity'']"
    by simp
  from requested_columns_matched_or_all [OF h1 h2 h3 a4 a5 a6 a7,
      where to_num = "\<lambda>vals. parse_nat"]
  have matched: "select_columns ?D (Some [''Pressure'', ''Humidity'']) =
      \<lparr>headers = [''Pressure''], col_indices = [1], missing_columns = [''Humidity'']\<rparr> \<and>
      read_data_file (\<lambda>vals. parse_nat) ?F (Some [''Pressure'', ''Humidity'']) =
      (\<lparr>column_units = [(''Temp'', ''C''), (''Pressure'', ''kPa'')],
        column_order_from_dataname = ?D\<rparr>,
       Inr \<lparr>df = [(''Pressure'', Numeric [Some 101, Some 99])], columns = [''Pressure'']\<rparr>)"
    unfolding u a8 a9 by simp
  from requested_columns_matched_or_all [OF h1 h2 h3 b4 b5 b6 b7,
      where to_num = "\<lambda>vals. parse_nat"]
  have fallback: "select_columns ?D (Some [''Humidity'']) =
      \<lparr>headers = ?D, col_indices = [0, 1], missing_columns = [''Humidity'']\<rparr> \<and>
      read_data_file (\<lambda>vals. parse_nat) ?F (Some [''Humidity'']) =
      (\<lparr>column_units = [(''Temp'', ''C''), (''Pressure'', ''kPa'')],
        column_order_from_dataname = ?D\<rparr>,
       Inr \<lparr>df = [(''Temp'', Numeric [Some 25, Some 30]),
                  (''Pressure'', Numeric [Some 101, Some 99])], columns = ?D\<rparr>)"
    unfolding u b8 b9 by simp
  from matched fallback show ?thesis
    by blast
qed

subsection \<open>Column types\<close>

text \<open>
  C2 does not hold of the code. The column \<open>T\<close> below holds the text \<open>abc\<close>, which is no
  number, and the number 7. The claim wants the column kept as text with both strings
  unchanged; the conversion with \<^verbatim>\<open>errors='coerce'\<close> raises nothing, so the branch that
  would keep the strings is not taken, the column becomes numeric and \<open>abc\<close> is replaced
  by the missing-value marker.
\<close>

theorem one_unparsed_value_makes_nan:
  "read_data_file (\<lambda>vals. parse_nat) [''DataName,T'', ''DataValue,abc'', ''DataValue,7''] None =
     (\<lparr>column_units = [], column_order_from_dataname = [''T'']\<rparr>,
      Inr \<lparr>df = [(''T'', Numeric [None, Some 7])], columns = [''T'']\<rparr>)"
  by code_simp

subsection \<open>Unit discovery\<close>

text \<open>
  C5, as the code has it. Let the names line (the first line that starts with
  \<^verbatim>\<open>AnalysisSetup\<close> and contains \<^verbatim>\<open>Datum.Name\<close>) be at index \<open>i\<close>. The scan for the
  unit line covers the indices \<open>i + 1\<close> to \<open>i + 9\<close>, the nine lines after the names line.
  The first unit line there is where the scan stops, and the unit mapping is the one built
  from the names line and that line, both split on the names line's delimiter. When the nine
  lines hold no unit line, the mapping is empty and the call goes on: if the file has a
  DataName line and a line after it yields a row, the call returns the table, with no unit
  for any column.
\<close>

theorem unit_line_lookahead:
  assumes "find_first (\<lambda>l. is_names_line (strip l)) lines = Some i"
    and "delimiter = detect_delimiter (strip (lines ! i))"
    and "parts = split (strip (lines ! i)) delimiter"
  shows "(\<forall>j. i < j \<and> j < min (i + 10) (length lines) \<and> is_unit_line (strip (lines ! j)) \<and>
              (\<forall>k\<in>{Suc i..<j}. \<not> is_unit_line (strip (lines ! k)))
            \<longrightarrow> find_unit_line lines i = Some j \<and>
                discover_units lines =
                  build_mapping (unit_pairs parts (split (strip (lines ! j)) delimiter))) \<and>
         ((\<forall>j\<in>{Suc i..<min (i + 10) (length lines)}. \<not> is_unit_line (strip (lines ! j)))
            \<longrightarrow> find_unit_line lines i = None \<and> discover_units lines = [] \<and>
                (\<forall>d r row D sel.
                    find_dataname lines = Some d \<and>
                    D = fields_from 1 (split (strip (lines ! d)) (detect_delimiter (strip (lines ! d)))) \<and>
                    sel = select_columns D need_columns \<and> d < r \<and> r < length lines \<and>
                    data_row (detect_delimiter (strip (lines ! d))) (length D) (col_indices sel)
                      (lines ! r) = Some row
                  \<longrightarrow> read_data_file to_num lines need_columns =
                        (\<lparr>column_units = [], column_order_from_dataname = D\<rparr>,
                         Inr \<lparr>df = convert_types to_num (headers sel)
                                    (collect_rows (detect_delimiter (strip (lines ! d))) (length D)
                                       (col_indices sel) (drop (Suc d) lines)),
                              columns = headers sel\<rparr>)))"
proof (intro conjI allI impI)
  fix j
  assume a: "i < j \<and> j < min (i + 10) (length lines) \<and> is_unit_line (strip (lines ! j)) \<and>
              (\<forall>k\<in>{Suc i..<j}. \<not> is_unit_line (strip (lines ! k)))"
  then show f: "find_unit_line lines i = Some j"
    unfolding find_unit_line_def
    by (intro find_upt_Some) auto
  have short: "build_mapping (unit_pairs ps us) = []" if "\<not> 2 < length ps \<or> \<not> 2 < length us"
    for ps us
    using that by (auto simp: build_mapping_def unit_pairs_def fields_from_def)
  from f assms show "discover_units lines =
                  build_mapping (unit_pairs parts (split (strip (lines ! j)) delimiter))"
    by (auto simp: discover_units_def Let_def short)
next
  assume n: "\<forall>j\<in>{Suc i..<min (i + 10) (length lines)}. \<not> is_unit_line (strip (lines ! j))"
  then show f: "find_unit_line lines i = None"
    unfolding find_unit_line_def by (intro find_upt_None) simp
  with assms show e: "discover_units lines = []"
    by (simp add: discover_units_def Let_def)
  fix d r row D sel
  assume b: "find_dataname lines = Some d \<and>
                    D = fields_from 1 (split (strip (lines ! d)) (detect_delimiter (strip (lines ! d)))) \<and>
                    sel = select_columns D need_columns \<and> d < r \<and> r < length lines \<and>
                    data_row (detect_delimiter (strip (lines ! d))) (length D) (col_indices sel)
                      (lines ! r) = Some row"
  then have ne: "collect_rows (detect_delimiter (strip (lines ! d))) (length D) (col_indices sel)
                   (drop (Suc d) lines) \<noteq> []"
    by (intro collect_rows_nonempty [of d r lines _ _ _ row]) auto
  from b have b1: "find_dataname lines = Some d"
    and b2: "D = fields_from 1 (split (strip (lines ! d)) (detect_delimiter (strip (lines ! d))))"
    and b3: "sel = select_columns D need_columns"
    by simp_all
  from read_data_file_found [OF b1 refl b2 refl, where need = need_columns and to_num = to_num]
  have "read_data_file to_num lines need_columns =
           (\<lparr>column_units = apply_units (discover_units lines) D, column_order_from_dataname = D\<rparr>,
            if collect_rows (detect_delimiter (strip (lines ! d))) (length D) (col_indices sel)
                   (drop (Suc d) lines) = [] then Inl EmptyResult
            else Inr \<lparr>df = convert_types to_num (headers sel)
                          (collect_rows (detect_delimiter (strip (lines ! d))) (length D)
                             (col_indices sel) (drop (Suc d) lines)),
                      columns = headers sel\<rparr>)"
    unfolding b3 .
  with ne show "read_data_file to_num lines need_columns =
                        (\<lparr>column_units = [], column_order_from_dataname = D\<rparr>,
                         Inr \<lparr>df = convert_types to_num (headers sel)
                                    (collect_rows (detect_delimiter (strip (lines ! d))) (length D)
                                       (col_indices sel) (drop (Suc d) lines)),
                              columns = headers sel\<rparr>)"
    by (simp add: e apply_units_Nil)
qed

theorem unit_line_lookahead_witness:
  "discover_units
     ([''AnalysisSetup,Datum.Name,Temp,Pressure''] @ replicate 8 [CHR 0x0A] @
      [''AnalysisSetup,Datum.Unit,C,kPa'', ''DataName,Temp,Pressure'', ''DataValue,25,101''])
     = [(''Temp'', ''C''), (''Pressure'', ''kPa'')] \<and>
   find_unit_line
     ([''AnalysisSetup,Datum.Name,Temp,Pressure''] @ replicate 8 [CHR 0x0A] @
      [''AnalysisSetup,Datum.Unit,C,kPa'', ''DataName,Temp,Pressure'', ''DataValue,25,101'']) 0
     = Some 9 \<and>
   discover_units
     ([''AnalysisSetup,Datum.Name,Temp,Pressure''] @ replicate 9 [CHR 0x0A] @
      [''AnalysisSetup,Datum.Unit,C,kPa'', ''DataName,Temp,Pressure'', ''DataValue,25,101''])
     = [] \<and>
   read_data_file (\<lambda>vals. parse_nat)
     ([''AnalysisSetup,Datum.Name,Temp,Pressure''] @ replicate 9 [CHR 0x0A] @
      [''AnalysisSetup,Datum.Unit,C,kPa'', ''DataName,Temp,Pressure'', ''DataValue,25,101''])
     None =
     (\<lparr>column_units = [], column_order_from_dataname = [''Temp'', ''Pressure'']\<rparr>,
      Inr \<lparr>df = [(''Temp'', Numeric [Some 25]), (''Pressure'', Numeric [Some 101])],
           columns = [''Temp'', ''Pressure'']\<rparr>)"
proof -
  let ?F = "[''AnalysisSetup,Datum.Name,Temp,Pressure''] @ replicate 8 [CHR 0x0A] @
      [''AnalysisSetup,Datum.Unit,C,kPa'', ''DataName,Temp,Pressure'', ''DataValue,25,101'']"
  let ?G = "[''AnalysisSetup,Datum.Name,Temp,Pressure''] @ replicate 9 [CHR 0x0A] @
      [''AnalysisSetup,Datum.Unit,C,kPa'', ''DataName,Temp,Pressure'', ''DataValue,25,101'']"
  let ?P = "[''AnalysisSetup'', ''Datum.Name'', ''Temp'', ''Pressure'']"
  let ?D = "[''Temp'', ''Pressure'']"
  let ?sel = "\<lparr>headers = ?D, col_indices = [0, 1], missing_columns = []\<rparr>"
  have f1: "find_first (\<lambda>l. is_names_line (strip l)) ?F = Some 0"
    by code_simp
  have f2: "CHR '','' = detect_delimiter (strip (?F ! 0))"
    by code_simp
  have f3: "?P = split (strip (?F ! 0)) (CHR '','')"
    by code_simp
  have f4: "0 < (9::nat) \<and> 9 < min (0 + 10) (length ?F) \<and> is_unit_line (strip (?F ! 9)) \<and>
            (\<forall>k\<in>{Suc 0..<9}. \<not> is_unit_line (strip (?F ! k)))"
    by code_simp
  have f5: "build_mapping (unit_pairs ?P (split (strip (?F ! 9)) (CHR '','')))
              = [(''Temp'', ''C''), (''Pressure'', ''kPa'')]"
    by code_simp
  have g1: "find_first (\<lambda>l. is_names_line (strip l)) ?G = Some 0"
    by code_simp
  have g2: "CHR '','' = detect_delimiter (strip (?G ! 0))"
    by code_simp
  have g3: "?P = split (strip (?G ! 0)) (CHR '','')"
    by code_simp
  have g4: "\<forall>j\<in>{Suc 0..<min (0 + 10) (length ?G)}. \<not> is_unit_line (strip (?G ! j))"
    by code_simp
  have g5: "find_dataname ?G = Some 11"
    by code_simp
  have g6: "?D = fields_from 1 (split (strip (?G ! 11)) (detect_delimiter (strip (?G ! 11))))"
    by code_simp
  have g7: "?sel = select_columns ?D None"
    by (simp add: select_columns_def upt_rec)
  have g8: "(11::nat) < 12 \<and> 12 < length ?G"
    by simp
  have g9: "data_row (detect_delimiter (strip (?G ! 11))) (length ?D) (col_indices ?sel) (?G ! 12)
              = Some [''25'', ''101'']"
    by code_simp
  have g10: "convert_types (\<lambda>vals. parse_nat) (headers ?sel)
               (collect_rows (detect_delimiter (strip (?G ! 11))) (length ?D) (col_indices ?sel)
                  (drop (Suc 11) ?G))
             = [(''Temp'', Numeric [Some 25]), (''Pressure'', Numeric [Some 101])]"
    by code_simp
  from unit_line_lookahead [OF f1 f2 f3, where to_num = "\<lambda>vals. parse_nat"
      and need_columns = None] f4
  have "find_unit_line ?F 0 = Some 9 \<and>
        discover_units ?F = build_mapping (unit_pairs ?P (split (strip (?F ! 9)) (CHR '','')))"
    by blast
  with f5 have found: "find_unit_line ?F 0 = Some 9 \<and>
      discover_units ?F = [(''Temp'', ''C''), (''Pressure'', ''kPa'')]"
    by simp
  from unit_line_lookahead [OF g1 g2 g3, where to_num = "\<lambda>vals. parse_nat"
      and need_columns = None] g4
  have none: "discover_units ?G = []"
    and go_on: "\<forall>d r row D sel.
        find_dataname ?G = Some d \<and>
        D = fields_from 1 (split (strip (?G ! d)) (detect_delimiter (strip (?G ! d)))) \<and>
        sel = select_columns D None \<and> d < r \<and> r < length ?G \<and>
        data_row (detect_delimiter (strip (?G ! d))) (length D) (col_indices sel) (?G ! r) = Some row
        \<longrightarrow> read_data_file (\<lambda>vals. parse_nat) ?G None =
              (\<lparr>column_units = [], column_order_from_dataname = D\<rparr>,
               Inr \<lparr>df = convert_types (\<lambda>vals. parse_nat) (headers sel)
                          (collect_rows (detect_delimiter (strip (?G ! d))) (length D)
                             (col_indices sel) (drop (Suc d) ?G)),
                    columns = headers sel\<rparr>)"
    by blast+
  from g5 g6 g7 g8 g9 have "find_dataname ?G = Some 11 \<and>
        ?D = fields_from 1 (split (strip (?G ! 11)) (detect_delimiter (strip (?G ! 11)))) \<and>
        ?sel = select_columns ?D None \<and> (11::nat) < 12 \<and> 12 < length ?G \<and>
        data_row (detect_delimiter (strip (?G ! 11))) (length ?D) (col_indices ?sel) (?G ! 12)
          = Some [''25'', ''101'']"
    by blast
  from go_on [rule_format, OF this]
  have "read_data_file (\<lambda>vals. parse_nat) ?G None =
      (\<lparr>column_units = [], column_order_from_dataname = ?D\<rparr>,
       Inr \<lparr>df = [(''Temp'', Numeric [Some 25]), (''Pressure'', Numeric [Some 101])],
            columns = ?D\<rparr>)"
    unfolding g10 by simp
  with found none show ?thesis
    by blast
qed

text \<open>
  C5 as stated fails for a unit line that is the tenth line after the names line: it lies
  within ten lines, and the scan does not reach it. A second unit line inside the window is
  not used either: the scan stops at the first.
\<close>

theorem unit_line_tenth_line_counterexample:
  "find_first (\<lambda>l. is_names_line (strip l))
     ([''AnalysisSetup,Datum.Name,Temp,Pressure''] @ replicate 9 [CHR 0x0A] @
      [''AnalysisSetup,Datum.Unit,C,kPa'', ''DataName,Temp,Pressure'']) = Some 0 \<and>
   is_unit_line (strip
     (([''AnalysisSetup,Datum.Name,Temp,Pressure''] @ replicate 9 [CHR 0x0A] @
       [''AnalysisSetup,Datum.Unit,C,kPa'', ''DataName,Temp,Pressure'']) ! (0 + 10))) \<and>
   discover_units
     ([''AnalysisSetup,Datum.Name,Temp,Pressure''] @ replicate 9 [CHR 0x0A] @
      [''AnalysisSetup,Datum.Unit,C,kPa'', ''DataName,Temp,Pressure'']) = [] \<and>
   is_unit_line (strip
     ([''AnalysisSetup,Datum.Name,Temp,Pressure'', ''AnalysisSetup,Datum.Unit,C,kPa'',
       ''AnalysisSetup,Datum.Unit,K,Pa''] ! (0 + 2))) \<and>
   discover_units
     [''AnalysisSetup,Datum.Name,Temp,Pressure'', ''AnalysisSetup,Datum.Unit,C,kPa'',
      ''AnalysisSetup,Datum.Unit,K,Pa''] = [(''Temp'', ''C''), (''Pressure'', ''kPa'')]"
  by code_simp

text \<open>
  C10, as the code has it. The fields of both lines from the third onward are stripped and
  the empty ones dropped before the zip, so no pair has an empty name or an empty unit.
  Let \<open>N\<close> and \<open>U\<close> be the raw fields of the names line and of the unit line from the
  third onward, and let the unit at raw position \<open>k\<close> be non-empty. If \<open>N\<close> has at
  least \<open>k\<close> fields and \<open>U\<close> has more empty fields before position \<open>k\<close> than
  \<open>N\<close> has, the unit is paired with the name at
  an earlier raw position \<open>p < k\<close>: the name that has as many non-empty names before it as
  the unit has non-empty units before it.
\<close>

theorem blank_unit_field_shifts_units:
  assumes "N = drop 2 parts" and "U = drop 2 unit_parts"
    and "k < length U" and "strip (U ! k) \<noteq> []" and "k \<le> length N"
    and "length (filter (\<lambda>h. strip h = []) (take k N))
           < length (filter (\<lambda>h. strip h = []) (take k U))"
  shows "[] \<notin> fst ` set (unit_pairs parts unit_parts) \<and>
         [] \<notin> snd ` set (unit_pairs parts unit_parts) \<and>
         (\<exists>p<k. \<exists>q<length (unit_pairs parts unit_parts).
             q = length (filter (\<lambda>h. strip h \<noteq> []) (take k U)) \<and>
             q = length (filter (\<lambda>h. strip h \<noteq> []) (take p N)) \<and>
             strip (N ! p) \<noteq> [] \<and>
             unit_pairs parts unit_parts ! q = (strip (N ! p), strip (U ! k)))"
proof -
  let ?nb = "\<lambda>h. strip h \<noteq> []"
  define q where "q = length (filter ?nb (take k U))"
  have names: "fields_from 2 parts = map strip (filter ?nb N)"
    and units: "fields_from 2 unit_parts = map strip (filter ?nb U)"
    by (simp_all add: fields_from_def assms(1,2))
  have "[] \<notin> set (map strip (filter ?nb N))" "[] \<notin> set (map strip (filter ?nb U))"
    by auto
  then have nonempty: "[] \<notin> fst ` set (unit_pairs parts unit_parts)"
      "[] \<notin> snd ` set (unit_pairs parts unit_parts)"
    unfolding unit_pairs_def names units
    by (metis (no_types, lifting) imageE prod.collapse set_zip_leftD,
        metis (no_types, lifting) imageE prod.collapse set_zip_rightD)
  from filter_nth_at [of k U ?nb] assms(3,4)
  have u: "q < length (filter ?nb U)" "filter ?nb U ! q = U ! k"
    by (simp_all add: q_def)
  have "length (filter ?nb (take k U)) + length (filter (\<lambda>h. \<not> ?nb h) (take k U)) = k"
    using sum_length_filter_compl [of ?nb "take k U"] assms(3) by simp
  moreover have "length (filter ?nb (take k N)) + length (filter (\<lambda>h. \<not> ?nb h) (take k N)) = k"
    using sum_length_filter_compl [of ?nb "take k N"] assms(5) by simp
  ultimately have "q < length (filter ?nb (take k N))"
    using assms(6) by (simp add: q_def)
  from filter_nth_position [OF this] obtain p where p: "p < length (take k N)"
      "?nb (take k N ! p)" "length (filter ?nb (take p (take k N))) = q"
      "filter ?nb (take k N) ! q = take k N ! p"
    by blast
  from p(1) have pk: "p < k" by simp
  with p have p': "?nb (N ! p)" "length (filter ?nb (take p N)) = q"
      "filter ?nb (take k N) ! q = N ! p"
    by (simp_all add: min_absorb1)
  from filter_take_nth [OF \<open>q < length (filter ?nb (take k N))\<close>] p'(3)
  have n: "q < length (filter ?nb N)" "filter ?nb N ! q = N ! p"
    by simp_all
  have len: "q < length (unit_pairs parts unit_parts)"
    using n(1) u(1) by (simp add: unit_pairs_def names units)
  have pair: "unit_pairs parts unit_parts ! q = (strip (N ! p), strip (U ! k))"
    using n u by (simp add: unit_pairs_def names units)
  from pk len p' pair have "\<exists>p<k. \<exists>q<length (unit_pairs parts unit_parts).
             q = length (filter ?nb (take k U)) \<and>
             q = length (filter ?nb (take p N)) \<and>
             strip (N ! p) \<noteq> [] \<and>
             unit_pairs parts unit_parts ! q = (strip (N ! p), strip (U ! k))"
    unfolding q_def [symmetric] by blast
  with nonempty show ?thesis by blast
qed

theorem blank_unit_field_shifts_units_witness:
  "[''A'', ''B'', ''C''] = drop 2 (split ''AnalysisSetup,Datum.Name,A,B,C'' (CHR '','')) \<and>
   [[], ''s'', ''m''] = drop 2 (split ''AnalysisSetup,Datum.Unit,,s,m'' (CHR '','')) \<and>
   length (filter (\<lambda>h. strip h = []) (take 1 [''A'', ''B'', ''C'']))
     < length (filter (\<lambda>h. strip h = []) (take 1 [[], ''s'', ''m''])) \<and>
   unit_pairs (split ''AnalysisSetup,Datum.Name,A,B,C'' (CHR '',''))
              (split ''AnalysisSetup,Datum.Unit,,s,m'' (CHR '','')) ! 0 = (''A'', ''s'')"
proof -
  let ?N = "[''A'', ''B'', ''C'']" and ?U = "[[], ''s'', ''m'']"
  let ?parts = "split ''AnalysisSetup,Datum.Name,A,B,C'' (CHR '','')"
  let ?unit_parts = "split ''AnalysisSetup,Datum.Unit,,s,m'' (CHR '','')"
  have h1: "?N = drop 2 ?parts"
    by code_simp
  have h2: "?U = drop 2 ?unit_parts"
    by code_simp
  have h3: "1 < length ?U"
    by simp
  have h4: "strip (?U ! 1) \<noteq> []"
    by code_simp
  have h5: "1 \<le> length ?N"
    by simp
  have h6: "length (filter (\<lambda>h. strip h = []) (take 1 ?N))
              < length (filter (\<lambda>h. strip h = []) (take 1 ?U))"
    by code_simp
  have q0: "length (filter (\<lambda>h. strip h \<noteq> []) (take 1 ?U)) = 0"
    by code_simp
  have v: "strip (?N ! 0) = ''A''" "strip (?U ! 1) = ''s''"
    by code_simp+
  from blank_unit_field_shifts_units [OF h1 h2 h3 h4 h5 h6]
  obtain p q where "p < 1" "q = length (filter (\<lambda>h. strip h \<noteq> []) (take 1 ?U))"
      "unit_pairs ?parts ?unit_parts ! q = (strip (?N ! p), strip (?U ! 1))"
    by blast
  with q0 v have "unit_pairs ?parts ?unit_parts ! 0 = (''A'', ''s'')"
    by simp
  with h1 h2 h6 show ?thesis
    by blast
qed

text \<open>
  C10 as stated fails when the names line has an empty field in the same place: the unit
  \<open>s\<close> has an empty unit field before it and is still paired with \<open>A\<close>, the name at its
  own raw position.
\<close>

theorem blank_name_field_counterexample:
  "strip (drop 2 (split ''AnalysisSetup,Datum.Unit,,s,m'' (CHR '','')) ! 0) = [] \<and>
   drop 2 (split ''AnalysisSetup,Datum.Unit,,s,m'' (CHR '','')) ! 1 = ''s'' \<and>
   drop 2 (split ''AnalysisSetup,Datum.Name,,A,B'' (CHR '','')) ! 1 = ''A'' \<and>
   unit_pairs (split ''AnalysisSetup,Datum.Name,,A,B'' (CHR '',''))
              (split ''AnalysisSetup,Datum.Unit,,s,m'' (CHR '','')) = [(''A'', ''s''), (''B'', ''m'')] \<and>
   discover_units [''AnalysisSetup,Datum.Name,,A,B'', ''AnalysisSetup,Datum.Unit,,s,m'']
     = [(''A'', ''s''), (''B'', ''m'')]"
  by code_simp

end
